theory Spec2Isabelle
  imports Main
begin

section \<open>The document model read by the list-merge command\<close>

text \<open>
  \<^verbatim>\<open>DocumentListMergeCommand\<close> (module \<^verbatim>\<open>list/documentlist/documentlistmergecommand\<close>)
  reads and changes the editor's model through the engine's API. Model elements are
  objects with identity (the command compares them with \<^verbatim>\<open>!==\<close> and collects them in a
  \<^verbatim>\<open>Set\<close>), so an element is an address \<open>ref\<close> into a store; the store is total, as an
  element keeps its attributes when it is detached from the tree.
\<close>

type_synonym ref = nat

record block =
  name :: string
  listIndent :: "int option"
  listItemId :: "string option"
  maxOffset :: nat

record position =
  parent :: ref
  offset :: nat

record modelSelection =
  isCollapsed :: bool
  firstPosition :: position
  lastPosition :: position

record document =
  node :: "ref \<Rightarrow> block"
  children :: "ref list"
  selection :: modelSelection

datatype direction = Backward | Forward

datatype error = TypeError

datatype jsnumber = Num int | NaN

text \<open>
  Modelled from the spec: the engine's element API (\<^verbatim>\<open>isEmpty\<close>, \<^verbatim>\<open>previousSibling\<close>,
  \<^verbatim>\<open>nextSibling\<close>) is not part of the sources. An element is empty when it has no
  content; its siblings are its neighbours among the children of the root, and an
  element that is not in the tree has none.
\<close>

definition isEmpty :: "block \<Rightarrow> bool" where
  "isEmpty b = (maxOffset b = 0)"

fun before :: "ref \<Rightarrow> ref list \<Rightarrow> ref option" where
  "before r [] = None"
| "before r [x] = None"
| "before r (x # y # ys) = (if x = r then None else if y = r then Some x else before r (y # ys))"

fun after :: "ref \<Rightarrow> ref list \<Rightarrow> ref option" where
  "after r [] = None"
| "after r [x] = None"
| "after r (x # y # ys) = (if x = r then Some y else after r (y # ys))"

definition previousSibling :: "document \<Rightarrow> ref \<Rightarrow> ref option" where
  "previousSibling d r = before r (children d)"

definition nextSibling :: "document \<Rightarrow> ref \<Rightarrow> ref option" where
  "nextSibling d r = after r (children d)"

text \<open>
  Modelled from the spec: the writer's \<^verbatim>\<open>createPositionAt\<close>, \<^verbatim>\<open>createRange\<close> and
  \<^verbatim>\<open>createSelection\<close> are not part of the sources. A position at \<^verbatim>\<open>'end'\<close> has the
  element's maximal offset; a selection made of one range is collapsed when the range's
  two ends are the same position.
\<close>

definition createPositionAtEnd :: "document \<Rightarrow> ref \<Rightarrow> position" where
  "createPositionAtEnd d r = \<lparr>parent = r, offset = maxOffset (node d r)\<rparr>"

definition createPositionAt :: "ref \<Rightarrow> nat \<Rightarrow> position" where
  "createPositionAt r n = \<lparr>parent = r, offset = n\<rparr>"

definition createSelection :: "position \<Rightarrow> position \<Rightarrow> modelSelection" where
  "createSelection s e = \<lparr>isCollapsed = (s = e), firstPosition = s, lastPosition = e\<rparr>"

subsection \<open>The helpers of the list feature\<close>

text \<open>
  The command imports \<^verbatim>\<open>getNestedListBlocks\<close>, \<^verbatim>\<open>indentBlocks\<close>,
  \<^verbatim>\<open>isFirstBlockOfListItem\<close>, \<^verbatim>\<open>mergeListItemBefore\<close>, \<^verbatim>\<open>isSingleListItem\<close> and
  \<^verbatim>\<open>isListItemBlock\<close> from \<^verbatim>\<open>./utils/model\<close> and \<^verbatim>\<open>ListWalker\<close> from
  \<^verbatim>\<open>./utils/listwalker\<close>, and calls \<^verbatim>\<open>model.schema.isObject\<close> and
  \<^verbatim>\<open>model.deleteContent\<close>. None of them is part of the sources, so the command is
  modelled over any implementation of them: they are the fields of \<open>host\<close>. A helper that
  the command may call with \<^verbatim>\<open>null\<close> takes a \<open>ref option\<close>. A helper that changes the
  model takes the document and returns the new one. \<^verbatim>\<open>deleteContent\<close> is given either the
  document's own selection object, which is part of the document, or a selection object
  made by the writer, which it changes too: it returns the new value of that object.
\<close>

datatype selectable = DocumentSelection | Detached modelSelection

record walkerOptions =
  sameIndent :: bool
  lowerIndent :: bool

record host =
  isObject :: "document \<Rightarrow> ref option \<Rightarrow> bool"
  isSingleListItem :: "document \<Rightarrow> ref list \<Rightarrow> bool"
  isFirstBlockOfListItem :: "document \<Rightarrow> ref \<Rightarrow> bool"
  isListItemBlock :: "document \<Rightarrow> ref option \<Rightarrow> bool"
  listWalkerFirst :: "document \<Rightarrow> ref \<Rightarrow> walkerOptions \<Rightarrow> ref option"
  getNestedListBlocks :: "document \<Rightarrow> ref \<Rightarrow> ref list"
  indentBlocks :: "ref list \<Rightarrow> jsnumber \<Rightarrow> bool \<Rightarrow> document \<Rightarrow> ref list \<times> document"
  mergeListItemBefore :: "ref \<Rightarrow> ref \<Rightarrow> document \<Rightarrow> ref list \<times> document"
  deleteContent :: "selectable \<Rightarrow> bool \<Rightarrow> document \<Rightarrow> modelSelection \<times> document"

section \<open>The command\<close>

text \<open>
  The command object holds the direction given to the constructor and the flag
  \<^verbatim>\<open>isEnabled\<close> of the base class. What the command does to the outside (the change
  block it opens, the calls that change the model, the event it fires) is recorded, in
  order, in \<open>events\<close>. Modelled from the spec: \<^verbatim>\<open>model.change\<close> is not part of the
  sources; it runs its callback as one change block, which \<open>ChangeBegin\<close> and
  \<open>ChangeEnd\<close> delimit.
\<close>

record command =
  direction :: direction
  isEnabled :: bool

datatype event =
    ChangeBegin
  | IndentBlocks "ref list" jsnumber bool
  | DeleteContent selectable bool
  | MergeListItemBefore ref ref
  | Fire string "ref list"
  | ChangeEnd

record editor =
  model :: document
  cmd :: command
  events :: "event list"

text \<open>
  The constructor, lines 35-46. Modelled from the spec: the base class \<^verbatim>\<open>Command\<close> is not
  part of the sources; the command's enabled state is recomputed on every refresh, and it
  starts disabled.
\<close>

definition constructor :: "direction \<Rightarrow> command" where
  "constructor dir = \<lparr>direction = dir, isEnabled = False\<rparr>"

text \<open>
  \<^verbatim>\<open>_shouldMergeOnBlocksContentLevel\<close>, lines 189-210. The read of \<^verbatim>\<open>isEmpty\<close> on a
  \<^verbatim>\<open>previousSibling\<close> that is \<^verbatim>\<open>null\<close> raises a TypeError.
\<close>

definition shouldMergeOnBlocksContentLevel :: "host \<Rightarrow> command \<Rightarrow> document \<Rightarrow> error + bool" where
  "shouldMergeOnBlocksContentLevel h c d =
     (if \<not> isCollapsed (selection d) \<or> direction c = Forward then Inr True
      else
        let positionParent = parent (firstPosition (selection d));
            previous = previousSibling d positionParent
        in if isObject h d previous then Inr False
           else (case previous of
                   None \<Rightarrow> Inl TypeError
                 | Some p \<Rightarrow>
                     if isEmpty (node d p) then Inr True
                     else Inr (isSingleListItem h d [positionParent, p])))"

text \<open>
  \<^verbatim>\<open>_getBoundaryElements\<close>, lines 219-253. Either element may be \<^verbatim>\<open>null\<close>: a sibling
  that does not exist, or a list walk that finds nothing.
\<close>

definition getBoundaryElements ::
  "host \<Rightarrow> command \<Rightarrow> document \<Rightarrow> modelSelection \<Rightarrow> bool \<Rightarrow> ref option \<times> ref option" where
  "getBoundaryElements h c d sel should =
     (if isCollapsed sel then
        let positionParent = parent (firstPosition sel);
            isFirstBlock = isFirstBlockOfListItem h d positionParent
        in if direction c = Backward then
             (if isFirstBlock \<and> \<not> should
              then listWalkerFirst h d positionParent \<lparr>sameIndent = True, lowerIndent = True\<rparr>
              else previousSibling d positionParent,
              Some positionParent)
           else (Some positionParent, nextSibling d positionParent)
      else (Some (parent (firstPosition sel)), Some (parent (lastPosition sel))))"

text \<open>\<^verbatim>\<open>_checkEnabled\<close>, lines 144-157 (the rest of its body is commented out).\<close>

definition checkEnabled :: "host \<Rightarrow> command \<Rightarrow> document \<Rightarrow> error + bool" where
  "checkEnabled h c d =
     (case shouldMergeOnBlocksContentLevel h c d of
        Inl e \<Rightarrow> Inl e
      | Inr should \<Rightarrow>
          (case getBoundaryElements h c d (selection d) should of
             (firstElement, lastElement) \<Rightarrow>
               if should then Inr (isListItemBlock h d lastElement)
               else Inr (isListItemBlock h d firstElement)))"

text \<open>\<^verbatim>\<open>refresh\<close>, lines 51-53: an exception of the check leaves the flag as it was.\<close>

definition refresh :: "host \<Rightarrow> editor \<Rightarrow> error + editor" where
  "refresh h e =
     (case checkEnabled h (cmd e) (model e) of
        Inl err \<Rightarrow> Inl err
      | Inr b \<Rightarrow> Inr (e\<lparr>cmd := (cmd e)\<lparr>isEnabled := b\<rparr>\<rparr>))"

text \<open>
  \<^verbatim>\<open>new Set( changedBlocks )\<close>: a JavaScript set keeps each element once, in the order of
  first insertion.
\<close>

definition newSet :: "ref list \<Rightarrow> ref list" where
  "newSet xs = rev (remdups (rev xs))"

text \<open>
  Modelled from the spec: \<^verbatim>\<open>sortBlocks\<close> of \<^verbatim>\<open>./utils/model\<close> is not part of the sources.
  It puts blocks into document order: the blocks that are in the document, sorted by
  their index among the children of the root. A block that is no longer in the document
  has no place in that order and is left out.
\<close>

fun indexOf :: "ref \<Rightarrow> ref list \<Rightarrow> nat" where
  "indexOf r [] = 0"
| "indexOf r (x # xs) = (if x = r then 0 else Suc (indexOf r xs))"

definition sortBlocks :: "document \<Rightarrow> ref list \<Rightarrow> ref list" where
  "sortBlocks d bs =
     sort_key (\<lambda>r. indexOf r (children d)) (filter (\<lambda>r. r \<in> set (children d)) bs)"

text \<open>\<^verbatim>\<open>_fireAfterExecute\<close>, lines 125-136.\<close>

definition fireAfterExecute :: "document \<Rightarrow> ref list \<Rightarrow> event list" where
  "fireAfterExecute d changedBlocks = [Fire ''afterExecute'' (sortBlocks d (newSet changedBlocks))]"

text \<open>
  \<^verbatim>\<open>execute\<close>, lines 70-83: the indents of the two boundary blocks are read and compared.
  \<^verbatim>\<open>firstIndent\<close> is \<^verbatim>\<open>getAttribute( 'listIndent' ) || 0\<close>, a number; \<^verbatim>\<open>lastIndent\<close> is
  \<^verbatim>\<open>undefined\<close> when the last block has no such attribute, and then \<^verbatim>\<open>!=\<close> is true,
  the difference is \<^verbatim>\<open>NaN\<close> and \<^verbatim>\<open><\<close> is false. The result is the blocks pushed to
  \<^verbatim>\<open>changedBlocks\<close>, the calls made and the new document.
\<close>

definition executeIndent :: "host \<Rightarrow> document \<Rightarrow> ref \<Rightarrow> ref \<Rightarrow> ref list \<times> event list \<times> document" where
  "executeIndent h d firstElement lastElement =
     (let firstIndent = (case listIndent (node d firstElement) of None \<Rightarrow> 0 | Some n \<Rightarrow> n);
          lastIndent = listIndent (node d lastElement)
      in if lastIndent \<noteq> Some firstIndent then
           let nestedLastElementBlocks = getNestedListBlocks h d lastElement;
               blocks = lastElement # nestedLastElementBlocks;
               indentBy = (case lastIndent of None \<Rightarrow> NaN | Some l \<Rightarrow> Num (firstIndent - l));
               expand = (case lastIndent of None \<Rightarrow> False | Some l \<Rightarrow> firstIndent < l)
           in (case indentBlocks h blocks indentBy expand d of
                 (changed, d') \<Rightarrow> (changed, [IndentBlocks blocks indentBy expand], d'))
         else ([], [], d))"

text \<open>
  \<^verbatim>\<open>execute\<close>, lines 85-113. \<^verbatim>\<open>selection\<close> is the document's live selection, so
  \<^verbatim>\<open>selection.isCollapsed\<close> is read in the current document. After \<^verbatim>\<open>deleteContent\<close>,
  \<^verbatim>\<open>sel\<close> is read again: it is the object made by the writer for a collapsed selection,
  and the document's selection otherwise. \<^verbatim>\<open>==\<close> on two list item ids is true also when
  both are \<^verbatim>\<open>undefined\<close>, as the equality of two options is.
\<close>

definition executeMerge ::
  "host \<Rightarrow> document \<Rightarrow> bool \<Rightarrow> ref \<Rightarrow> ref \<Rightarrow> string option \<Rightarrow> ref list \<times> event list \<times> document" where
  "executeMerge h d should firstElement lastElement lastElementId =
     (if should then
        let collapsed = isCollapsed (selection d);
            sel = (if collapsed
                   then Detached (createSelection (createPositionAtEnd d firstElement)
                                                  (createPositionAt lastElement 0))
                   else DocumentSelection)
        in (case deleteContent h sel collapsed d of
              (own, d') \<Rightarrow>
                let selAfter = (if collapsed then own else selection d');
                    lastElementAfterDelete = parent (lastPosition selAfter)
                in (case nextSibling d' lastElementAfterDelete of
                      None \<Rightarrow> ([lastElementAfterDelete], [DeleteContent sel collapsed], d')
                    | Some next \<Rightarrow>
                        if next \<noteq> lastElement \<and> listItemId (node d' next) = lastElementId then
                          (case mergeListItemBefore h next lastElementAfterDelete d' of
                             (changed, d'') \<Rightarrow>
                               (lastElementAfterDelete # changed,
                                [DeleteContent sel collapsed,
                                 MergeListItemBefore next lastElementAfterDelete],
                                d''))
                        else ([lastElementAfterDelete], [DeleteContent sel collapsed], d')))
      else
        (case mergeListItemBefore h lastElement firstElement d of
           (changed, d') \<Rightarrow> (changed, [MergeListItemBefore lastElement firstElement], d')))"

text \<open>
  \<^verbatim>\<open>execute\<close>, lines 61-117. The whole body is the callback of \<^verbatim>\<open>model.change\<close>. The
  reads of \<^verbatim>\<open>firstElement.getAttribute\<close> and \<^verbatim>\<open>lastElement.getAttribute\<close> raise a
  TypeError on \<^verbatim>\<open>null\<close>, before anything is changed.
\<close>

definition execute :: "host \<Rightarrow> editor \<Rightarrow> error + editor" where
  "execute h e =
     (let d = model e in
      case shouldMergeOnBlocksContentLevel h (cmd e) d of
        Inl err \<Rightarrow> Inl err
      | Inr should \<Rightarrow>
          (case getBoundaryElements h (cmd e) d (selection d) should of
             (None, lastElement) \<Rightarrow> Inl TypeError
           | (Some firstElement, None) \<Rightarrow> Inl TypeError
           | (Some firstElement, Some lastElement) \<Rightarrow>
               let lastElementId = listItemId (node d lastElement)
               in (case executeIndent h d firstElement lastElement of
                     (changed1, calls1, d1) \<Rightarrow>
                       (case executeMerge h d1 should firstElement lastElement lastElementId of
                          (changed2, calls2, d2) \<Rightarrow>
                            Inr (e\<lparr>model := d2,
                                   events := events e @ [ChangeBegin] @ calls1 @ calls2
                                             @ fireAfterExecute d2 (changed1 @ changed2)
                                             @ [ChangeEnd]\<rparr>)))))"

text \<open>The host calls \<^verbatim>\<open>refresh\<close> after every change; \<open>refreshTimes\<close> is a run of such calls.\<close>

fun refreshTimes :: "host \<Rightarrow> nat \<Rightarrow> editor \<Rightarrow> error + editor" where
  "refreshTimes h 0 e = Inr e"
| "refreshTimes h (Suc n) e =
     (case refresh h e of Inl err \<Rightarrow> Inl err | Inr e' \<Rightarrow> refreshTimes h n e')"

text \<open>
  Reading the record of events: the events added by a run, the calls that change the
  model, and whether every event fired came when no change block was open.
\<close>

definition newEvents :: "editor \<Rightarrow> editor \<Rightarrow> event list" where
  "newEvents e e' = drop (length (events e)) (events e')"

fun isIndentCall :: "event \<Rightarrow> bool" where
  "isIndentCall (IndentBlocks bs n x) = True"
| "isIndentCall ev = False"

fun isMergeCall :: "event \<Rightarrow> bool" where
  "isMergeCall (DeleteContent s b) = True"
| "isMergeCall (MergeListItemBefore a b) = True"
| "isMergeCall ev = False"

fun firedOutsideChange :: "bool \<Rightarrow> event list \<Rightarrow> bool" where
  "firedOutsideChange inside [] = True"
| "firedOutsideChange inside (ChangeBegin # es) = firedOutsideChange True es"
| "firedOutsideChange inside (ChangeEnd # es) = firedOutsideChange False es"
| "firedOutsideChange inside (Fire n p # es) = (\<not> inside \<and> firedOutsideChange inside es)"
| "firedOutsideChange inside (ev # es) = firedOutsideChange inside es"

text \<open>
  What a recorded call does: the blocks it returns to \<^verbatim>\<open>changedBlocks\<close> and the document
  it leaves. For \<^verbatim>\<open>deleteContent\<close> the block pushed is the one that holds the end of the
  selection afterwards. \<open>replay\<close> runs a list of recorded calls in order.
\<close>

fun callResult :: "host \<Rightarrow> event \<Rightarrow> document \<Rightarrow> ref list \<times> document" where
  "callResult h (IndentBlocks bs n x) d = indentBlocks h bs n x d"
| "callResult h (DeleteContent sel b) d =
     (case deleteContent h sel b d of
        (own, d') \<Rightarrow>
          ([parent (lastPosition (case sel of DocumentSelection \<Rightarrow> selection d'
                                  | Detached v \<Rightarrow> own))], d'))"
| "callResult h (MergeListItemBefore a b) d = mergeListItemBefore h a b d"
| "callResult h ev d = ([], d)"

fun replay :: "host \<Rightarrow> event list \<Rightarrow> document \<Rightarrow> ref list \<times> document" where
  "replay h [] d = ([], d)"
| "replay h (ev # es) d =
     (case callResult h ev d of
        (c, d') \<Rightarrow> (case replay h es d' of (cs, d'') \<Rightarrow> (c @ cs, d'')))"

text \<open>
  Modelled from the spec: the engine applies a change block atomically for its observers.
  An observer outside the block sees the document when a block ends, and after a call
  that changes the model outside of any block; it does not see the documents in between
  the calls of one block. \<open>observed\<close> lists the documents seen while the recorded events
  happen.
\<close>

fun observed :: "host \<Rightarrow> bool \<Rightarrow> document \<Rightarrow> event list \<Rightarrow> document list" where
  "observed h inside d [] = []"
| "observed h inside d (ChangeBegin # es) = observed h True d es"
| "observed h inside d (ChangeEnd # es) = d # observed h False d es"
| "observed h inside d (Fire n p # es) = observed h inside d es"
| "observed h inside d (ev # es) =
     (if inside then observed h inside (snd (callResult h ev d)) es
      else snd (callResult h ev d) # observed h inside (snd (callResult h ev d)) es)"

text \<open>
  JavaScript's \<^verbatim>\<open>-\<close> and \<^verbatim>\<open><\<close> of a number and an attribute that may be \<^verbatim>\<open>undefined\<close>, as
  \<^verbatim>\<open>execute\<close> uses them at lines 78 and 81, and the indent that line 70 reads.
\<close>

definition jsMinus :: "int \<Rightarrow> int option \<Rightarrow> jsnumber" where
  "jsMinus a b = (case b of None \<Rightarrow> NaN | Some l \<Rightarrow> Num (a - l))"

definition jsLess :: "int \<Rightarrow> int option \<Rightarrow> bool" where
  "jsLess a b = (case b of None \<Rightarrow> False | Some l \<Rightarrow> a < l)"

definition indentOf :: "document \<Rightarrow> ref \<Rightarrow> int" where
  "indentOf d r = (case listIndent (node d r) of None \<Rightarrow> 0 | Some n \<Rightarrow> n)"

text \<open>
  Modelled from the spec: what the two helpers that set list attributes are for. To
  re-indent blocks is to add the given amount to the indent of each of them (the first
  of the blocks given, when it is not given twice, and as long as the result is not
  negative). To merge a block into a list item is to give it the id of that item; it
  changes neither the tree nor the content of any block. The command is modelled over
  any host; these are the hosts whose helpers do what the spec says of them.
\<close>

definition reindents :: "host \<Rightarrow> bool" where
  "reindents h =
     (\<forall>b bs k x d i.
        listIndent (node d b) = Some i \<and> b \<notin> set bs \<and> 0 \<le> i + k \<longrightarrow>
        listIndent (node (snd (indentBlocks h (b # bs) (Num k) x d)) b) = Some (i + k))"


section \<open>A small host\<close>

text \<open>
  Modelled from the spec: one implementation of the helpers that are not part of the
  sources, after the spec's glossary, to run the command on concrete documents. A list
  block carries a list item id; a list item is the blocks that share one id; the nested
  blocks of a block are the blocks that follow it at a higher indent; the list walk goes
  back over the list blocks before a block and stops at the first one whose indent the
  options admit; images and tables are objects. Merging a block into a list item gives it
  the indent and the id of that item. Deleting a range that spans several blocks splices what is left
  of the first and of the last block into the first, removes the others, and leaves the
  selection at the splice.
\<close>

definition smallIsObject :: "document \<Rightarrow> ref option \<Rightarrow> bool" where
  "smallIsObject d r =
     (case r of None \<Rightarrow> False
      | Some x \<Rightarrow> name (node d x) = ''imageBlock'' \<or> name (node d x) = ''table'')"

definition smallIsListItemBlock :: "document \<Rightarrow> ref option \<Rightarrow> bool" where
  "smallIsListItemBlock d r =
     (case r of None \<Rightarrow> False | Some x \<Rightarrow> listItemId (node d x) \<noteq> None)"

definition smallIsSingleListItem :: "document \<Rightarrow> ref list \<Rightarrow> bool" where
  "smallIsSingleListItem d bs =
     (case bs of [] \<Rightarrow> False
      | b # rest \<Rightarrow>
          listItemId (node d b) \<noteq> None
          \<and> list_all (\<lambda>x. listItemId (node d x) = listItemId (node d b)) rest)"

fun walkBack :: "document \<Rightarrow> int \<Rightarrow> walkerOptions \<Rightarrow> ref list \<Rightarrow> ref option" where
  "walkBack d reference opts [] = None"
| "walkBack d reference opts (x # xs) =
     (if listItemId (node d x) = None then None
      else if indentOf d x < reference then (if lowerIndent opts then Some x else None)
      else if reference < indentOf d x then walkBack d reference opts xs
      else if sameIndent opts then Some x
      else walkBack d reference opts xs)"

definition smallListWalkerFirst :: "document \<Rightarrow> ref \<Rightarrow> walkerOptions \<Rightarrow> ref option" where
  "smallListWalkerFirst d r opts =
     walkBack d (indentOf d r) opts (rev (takeWhile (\<lambda>x. x \<noteq> r) (children d)))"

definition smallIsFirstBlockOfListItem :: "document \<Rightarrow> ref \<Rightarrow> bool" where
  "smallIsFirstBlockOfListItem d r =
     (case smallListWalkerFirst d r \<lparr>sameIndent = True, lowerIndent = False\<rparr> of
        None \<Rightarrow> True
      | Some x \<Rightarrow> listItemId (node d x) \<noteq> listItemId (node d r))"

definition smallGetNestedListBlocks :: "document \<Rightarrow> ref \<Rightarrow> ref list" where
  "smallGetNestedListBlocks d r =
     takeWhile (\<lambda>x. listItemId (node d x) \<noteq> None \<and> indentOf d r < indentOf d x)
       (drop 1 (dropWhile (\<lambda>x. x \<noteq> r) (children d)))"

definition setIndent :: "int \<Rightarrow> ref \<Rightarrow> document \<Rightarrow> document" where
  "setIndent k r d =
     d\<lparr>node := (node d)(r := (node d r)\<lparr>listIndent := Some (indentOf d r + k)\<rparr>)\<rparr>"

definition smallIndentBlocks ::
  "ref list \<Rightarrow> jsnumber \<Rightarrow> bool \<Rightarrow> document \<Rightarrow> ref list \<times> document" where
  "smallIndentBlocks blocks indentBy expand d =
     (case indentBy of
        NaN \<Rightarrow> (blocks, d)
      | Num k \<Rightarrow> (blocks, fold (setIndent k) blocks d))"

definition smallMergeListItemBefore :: "ref \<Rightarrow> ref \<Rightarrow> document \<Rightarrow> ref list \<times> document" where
  "smallMergeListItemBefore b target d =
     ([b], d\<lparr>node := (node d)(b := (node d b)\<lparr>listIndent := listIndent (node d target),
                                             listItemId := listItemId (node d target)\<rparr>)\<rparr>)"

definition smallDeleteContent ::
  "selectable \<Rightarrow> bool \<Rightarrow> document \<Rightarrow> modelSelection \<times> document" where
  "smallDeleteContent sel doNotResetEntireContent d =
     (let s = (case sel of DocumentSelection \<Rightarrow> selection d | Detached v \<Rightarrow> v);
          a = firstPosition s;
          b = lastPosition s;
          caret = \<lparr>isCollapsed = True, firstPosition = a, lastPosition = a\<rparr>;
          kept = offset a + (maxOffset (node d (parent b)) - offset b);
          removed = (if parent a = parent b then []
                     else drop 1 (dropWhile (\<lambda>x. x \<noteq> parent a) (children d)));
          gone = takeWhile (\<lambda>x. x \<noteq> parent b) removed @ [parent b]
      in (caret,
          d\<lparr>node := (node d)(parent a := (node d (parent a))\<lparr>maxOffset := kept\<rparr>),
            children := (if parent a = parent b then children d
                         else filter (\<lambda>x. x \<notin> set gone) (children d)),
            selection := caret\<rparr>))"

definition smallHost :: host where
  "smallHost =
     \<lparr>isObject = smallIsObject,
      isSingleListItem = smallIsSingleListItem,
      isFirstBlockOfListItem = smallIsFirstBlockOfListItem,
      isListItemBlock = smallIsListItemBlock,
      listWalkerFirst = smallListWalkerFirst,
      getNestedListBlocks = smallGetNestedListBlocks,
      indentBlocks = smallIndentBlocks,
      mergeListItemBefore = smallMergeListItemBefore,
      deleteContent = smallDeleteContent\<rparr>"

text \<open>Blocks and documents to run the command on.\<close>

definition plainBlock :: "nat \<Rightarrow> block" where
  "plainBlock n = \<lparr>name = ''paragraph'', listIndent = None, listItemId = None, maxOffset = n\<rparr>"

definition listBlock :: "string \<Rightarrow> int \<Rightarrow> nat \<Rightarrow> block" where
  "listBlock i k n = \<lparr>name = ''paragraph'', listIndent = Some k, listItemId = Some i, maxOffset = n\<rparr>"

definition imageBlock :: block where
  "imageBlock = \<lparr>name = ''imageBlock'', listIndent = None, listItemId = None, maxOffset = 0\<rparr>"

definition caretAt :: "ref \<Rightarrow> nat \<Rightarrow> modelSelection" where
  "caretAt r n = createSelection (createPositionAt r n) (createPositionAt r n)"

definition blocksOf :: "block list \<Rightarrow> ref \<Rightarrow> block" where
  "blocksOf bs r = (if r < length bs then bs ! r else plainBlock 0)"

definition documentOf :: "block list \<Rightarrow> modelSelection \<Rightarrow> document" where
  "documentOf bs s = \<lparr>node = blocksOf bs, children = [0 ..< length bs], selection = s\<rparr>"

definition editorOf :: "direction \<Rightarrow> document \<Rightarrow> editor" where
  "editorOf dir d = \<lparr>model = d, cmd = constructor dir, events = []\<rparr>"

definition rangeOver :: "ref \<Rightarrow> nat \<Rightarrow> ref \<Rightarrow> nat \<Rightarrow> modelSelection" where
  "rangeOver r n r' n' = createSelection (createPositionAt r n) (createPositionAt r' n')"

definition twoItems :: document where
  "twoItems = documentOf [listBlock ''a'' 0 3, listBlock ''b'' 0 3] (caretAt 1 0)"

definition oneItem :: document where
  "oneItem = documentOf [listBlock ''a'' 0 3, listBlock ''a'' 0 3] (caretAt 1 0)"

definition afterImage :: document where
  "afterImage = documentOf [imageBlock, listBlock ''b'' 0 3] (caretAt 1 0)"

definition afterEmpty :: document where
  "afterEmpty = documentOf [listBlock ''a'' 0 0, listBlock ''b'' 0 3] (caretAt 1 0)"

definition afterParagraph :: document where
  "afterParagraph = documentOf [plainBlock 3, listBlock ''b'' 0 3] (caretAt 1 0)"

definition atStart :: document where
  "atStart = documentOf [listBlock ''a'' 0 3, listBlock ''b'' 0 3] (caretAt 0 0)"

definition ranged :: document where
  "ranged = documentOf [listBlock ''a'' 0 3, listBlock ''b'' 0 3] (rangeOver 0 1 1 2)"

definition nestedList :: document where
  "nestedList =
     documentOf [listBlock ''a'' 0 3, listBlock ''b'' 1 3, listBlock ''c'' 2 2, listBlock ''d'' 0 2]
       (caretAt 1 0)"

definition inward :: document where
  "inward =
     documentOf [listBlock ''x'' 0 3, listBlock ''a'' 1 3, listBlock ''b'' 0 3] (caretAt 1 3)"

definition twoBlockItem :: document where
  "twoBlockItem =
     documentOf [listBlock ''a'' 0 3, listBlock ''b'' 0 3, listBlock ''b'' 0 2] (caretAt 0 3)"

definition beforeList :: document where
  "beforeList = documentOf [plainBlock 3, listBlock ''b'' 0 3] (caretAt 0 3)"

definition afterList :: document where
  "afterList = documentOf [listBlock ''a'' 0 3, plainBlock 3] (caretAt 1 0)"

section \<open>Properties of the command\<close>

lemmas small_defs = smallHost_def smallIsObject_def smallIsListItemBlock_def
  smallIsSingleListItem_def smallListWalkerFirst_def smallIsFirstBlockOfListItem_def
  smallGetNestedListBlocks_def smallIndentBlocks_def smallMergeListItemBefore_def
  smallDeleteContent_def indentOf_def setIndent_def plainBlock_def listBlock_def
  imageBlock_def caretAt_def blocksOf_def documentOf_def editorOf_def constructor_def
  createSelection_def createPositionAt_def createPositionAtEnd_def isEmpty_def
  previousSibling_def nextSibling_def rangeOver_def twoItems_def oneItem_def afterImage_def
  afterEmpty_def afterParagraph_def atStart_def ranged_def nestedList_def inward_def
  twoBlockItem_def afterList_def beforeList_def

subsection \<open>The content-level decision\<close>

text \<open>
  C1. \<^verbatim>\<open>_shouldMergeOnBlocksContentLevel\<close> returns true when the selection is not
  collapsed or the direction is forward. For a collapsed selection and the backward
  direction, with \<open>p\<close> the previous sibling of the block that holds the selection: it
  returns false when \<open>p\<close> is an object of the schema; otherwise true when \<open>p\<close> is empty;
  otherwise what \<^verbatim>\<open>isSingleListItem\<close> says of the two blocks. The cases are tried in
  this order, so an empty object (an image) gives false.
\<close>

theorem shouldMerge_decision:
  "(\<not> isCollapsed (selection d) \<or> direction c = Forward \<longrightarrow>
      shouldMergeOnBlocksContentLevel h c d = Inr True)
   \<and> (isCollapsed (selection d) \<and> direction c = Backward
        \<and> previousSibling d (parent (firstPosition (selection d))) = Some p \<longrightarrow>
          (isObject h d (Some p) \<longrightarrow> shouldMergeOnBlocksContentLevel h c d = Inr False)
        \<and> (\<not> isObject h d (Some p) \<and> isEmpty (node d p) \<longrightarrow>
              shouldMergeOnBlocksContentLevel h c d = Inr True)
        \<and> (\<not> isObject h d (Some p) \<and> \<not> isEmpty (node d p) \<longrightarrow>
              shouldMergeOnBlocksContentLevel h c d =
                Inr (isSingleListItem h d [parent (firstPosition (selection d)), p])))"
  by (cases "direction c") (simp_all add: shouldMergeOnBlocksContentLevel_def)

theorem shouldMerge_decision_witness:
  "shouldMergeOnBlocksContentLevel smallHost (constructor Backward) ranged = Inr True
   \<and> shouldMergeOnBlocksContentLevel smallHost (constructor Forward) twoItems = Inr True
   \<and> shouldMergeOnBlocksContentLevel smallHost (constructor Backward) afterImage = Inr False
   \<and> shouldMergeOnBlocksContentLevel smallHost (constructor Backward) afterEmpty = Inr True
   \<and> shouldMergeOnBlocksContentLevel smallHost (constructor Backward) oneItem = Inr True
   \<and> shouldMergeOnBlocksContentLevel smallHost (constructor Backward) twoItems = Inr False"
proof -
  have a: "\<not> isCollapsed (selection ranged)"
    by (simp add: small_defs)
  have b: "direction (constructor Forward) = Forward"
    by (simp add: small_defs)
  have c: "isCollapsed (selection afterImage) \<and> direction (constructor Backward) = Backward
           \<and> previousSibling afterImage (parent (firstPosition (selection afterImage))) = Some 0
           \<and> isObject smallHost afterImage (Some 0) \<and> isEmpty (node afterImage 0)"
    by (simp add: small_defs)
  have d: "isCollapsed (selection afterEmpty) \<and> direction (constructor Backward) = Backward
           \<and> previousSibling afterEmpty (parent (firstPosition (selection afterEmpty))) = Some 0
           \<and> \<not> isObject smallHost afterEmpty (Some 0) \<and> isEmpty (node afterEmpty 0)"
    by (simp add: small_defs)
  have e: "isCollapsed (selection oneItem) \<and> direction (constructor Backward) = Backward
           \<and> previousSibling oneItem (parent (firstPosition (selection oneItem))) = Some 0
           \<and> \<not> isObject smallHost oneItem (Some 0) \<and> \<not> isEmpty (node oneItem 0)
           \<and> isSingleListItem smallHost oneItem [parent (firstPosition (selection oneItem)), 0]"
    by (simp add: small_defs)
  have f: "isCollapsed (selection twoItems) \<and> direction (constructor Backward) = Backward
           \<and> previousSibling twoItems (parent (firstPosition (selection twoItems))) = Some 0
           \<and> \<not> isObject smallHost twoItems (Some 0) \<and> \<not> isEmpty (node twoItems 0)
           \<and> \<not> isSingleListItem smallHost twoItems [parent (firstPosition (selection twoItems)), 0]"
    by (simp add: small_defs)
  show ?thesis
    using a b c d e f
      shouldMerge_decision [where d = ranged and c = "constructor Backward" and h = smallHost and p = 0]
      shouldMerge_decision [where d = twoItems and c = "constructor Forward" and h = smallHost and p = 0]
      shouldMerge_decision [where d = afterImage and c = "constructor Backward" and h = smallHost and p = 0]
      shouldMerge_decision [where d = afterEmpty and c = "constructor Backward" and h = smallHost and p = 0]
      shouldMerge_decision [where d = oneItem and c = "constructor Backward" and h = smallHost and p = 0]
      shouldMerge_decision [where d = twoItems and c = "constructor Backward" and h = smallHost and p = 0]
    by simp
qed

text \<open>
  C10. For a collapsed selection and the backward direction, the decision reads
  \<^verbatim>\<open>isEmpty\<close> of the previous sibling without a check for \<^verbatim>\<open>null\<close>. When the schema
  does not take the missing sibling for an object, the decision raises a TypeError
  exactly when the block that holds the selection has no previous sibling: with a
  previous sibling it always returns a boolean.
\<close>

theorem shouldMerge_total_iff:
  assumes "isCollapsed (selection d)" and "direction c = Backward"
      and "\<not> isObject h d None"
  shows "(shouldMergeOnBlocksContentLevel h c d = Inl TypeError)
         = (previousSibling d (parent (firstPosition (selection d))) = None)"
  using assms
  by (auto simp add: shouldMergeOnBlocksContentLevel_def Let_def split: option.splits)

theorem shouldMerge_total_iff_witness:
  "shouldMergeOnBlocksContentLevel smallHost (constructor Backward) atStart = Inl TypeError
   \<and> shouldMergeOnBlocksContentLevel smallHost (constructor Backward) twoItems \<noteq> Inl TypeError"
proof -
  have a: "isCollapsed (selection atStart)" "direction (constructor Backward) = Backward"
    "\<not> isObject smallHost atStart None"
    "previousSibling atStart (parent (firstPosition (selection atStart))) = None"
    by (simp_all add: small_defs)
  have b: "isCollapsed (selection twoItems)" "\<not> isObject smallHost twoItems None"
    "previousSibling twoItems (parent (firstPosition (selection twoItems))) \<noteq> None"
    by (simp_all add: small_defs)
  show ?thesis
    using shouldMerge_total_iff [OF a(1) a(2) a(3)] a(4)
      shouldMerge_total_iff [OF b(1) a(2) b(2)] b(3)
    by simp
qed

subsection \<open>The boundary blocks\<close>

text \<open>
  C2. \<^verbatim>\<open>_getBoundaryElements\<close>: for a selection that is not collapsed, the blocks of its
  first and of its last position; for a collapsed selection and the forward direction,
  the block of the position and its next sibling; for a collapsed selection and the
  backward direction, the last element is the block of the position, and the first
  element is the result of the list walk \<^verbatim>\<open>ListWalker.first\<close> with \<^verbatim>\<open>sameIndent\<close> and
  \<^verbatim>\<open>lowerIndent\<close> when the block is the first of its list item and the merge is not on
  content level, and the previous sibling of the block otherwise.
\<close>

theorem getBoundaryElements_cases:
  "(\<not> isCollapsed sel \<longrightarrow>
      getBoundaryElements h c d sel should =
        (Some (parent (firstPosition sel)), Some (parent (lastPosition sel))))
   \<and> (isCollapsed sel \<and> direction c = Forward \<longrightarrow>
        getBoundaryElements h c d sel should =
          (Some (parent (firstPosition sel)), nextSibling d (parent (firstPosition sel))))
   \<and> (isCollapsed sel \<and> direction c = Backward \<longrightarrow>
        snd (getBoundaryElements h c d sel should) = Some (parent (firstPosition sel))
        \<and> fst (getBoundaryElements h c d sel should) =
            (if isFirstBlockOfListItem h d (parent (firstPosition sel)) \<and> \<not> should
             then listWalkerFirst h d (parent (firstPosition sel))
                    \<lparr>sameIndent = True, lowerIndent = True\<rparr>
             else previousSibling d (parent (firstPosition sel))))"
  by (simp add: getBoundaryElements_def Let_def)

theorem getBoundaryElements_cases_witness:
  "getBoundaryElements smallHost (constructor Backward) ranged (selection ranged) True
     = (Some 0, Some 1)
   \<and> getBoundaryElements smallHost (constructor Forward) nestedList (selection nestedList) True
     = (Some 1, Some 2)
   \<and> getBoundaryElements smallHost (constructor Backward) nestedList (selection nestedList) False
     = (Some 0, Some 1)
   \<and> getBoundaryElements smallHost (constructor Backward) oneItem (selection oneItem) True
     = (Some 0, Some 1)"
proof -
  have a: "\<not> isCollapsed (selection ranged) \<and> parent (firstPosition (selection ranged)) = 0
           \<and> parent (lastPosition (selection ranged)) = 1"
    by (simp add: small_defs)
  have b: "isCollapsed (selection nestedList) \<and> direction (constructor Forward) = Forward
           \<and> parent (firstPosition (selection nestedList)) = 1
           \<and> nextSibling nestedList 1 = Some 2"
    by (simp add: small_defs)
  have c: "direction (constructor Backward) = Backward
           \<and> isFirstBlockOfListItem smallHost nestedList 1
           \<and> listWalkerFirst smallHost nestedList 1 \<lparr>sameIndent = True, lowerIndent = True\<rparr>
               = Some 0"
    by (simp add: small_defs)
  have d: "isCollapsed (selection oneItem) \<and> parent (firstPosition (selection oneItem)) = 1
           \<and> previousSibling oneItem 1 = Some 0"
    by (simp add: small_defs)
  show ?thesis
    using a b c d
      getBoundaryElements_cases
        [where sel = "selection ranged" and h = smallHost and c = "constructor Backward"
           and d = ranged and should = True]
      getBoundaryElements_cases
        [where sel = "selection nestedList" and h = smallHost and c = "constructor Forward"
           and d = nestedList and should = True]
      getBoundaryElements_cases
        [where sel = "selection nestedList" and h = smallHost and c = "constructor Backward"
           and d = nestedList and should = False]
      getBoundaryElements_cases
        [where sel = "selection oneItem" and h = smallHost and c = "constructor Backward"
           and d = oneItem and should = True]
    by (simp add: prod_eq_iff)
qed

subsection \<open>The enablement check\<close>

text \<open>
  C3, as the claim states it, fails: a caret at the start of a list block that follows a
  plain paragraph, backward direction. The merge is not on content level, the list walk
  finds no block to merge with, and the check returns false although the last boundary
  block is a list item block.
\<close>

theorem checkEnabled_last_counterexample:
  "shouldMergeOnBlocksContentLevel smallHost (constructor Backward) afterParagraph = Inr False
   \<and> getBoundaryElements smallHost (constructor Backward) afterParagraph
         (selection afterParagraph) False = (None, Some 1)
   \<and> isListItemBlock smallHost afterParagraph (Some 1)
   \<and> checkEnabled smallHost (constructor Backward) afterParagraph = Inr False"
  by (simp add: checkEnabled_def shouldMergeOnBlocksContentLevel_def getBoundaryElements_def
        small_defs)

text \<open>
  C3, amended. Whenever the content-level decision returns (it raises only for a
  collapsed backward selection in a block with no previous sibling), the check returns a
  boolean: when the merge is on content level, whether the last boundary block is a list
  item block; otherwise, whether the first boundary block is one. \<^verbatim>\<open>refresh\<close> stores
  that boolean in \<^verbatim>\<open>isEnabled\<close> and changes nothing else: not the document, not the
  direction, and no event is recorded.
\<close>

theorem checkEnabled_boundary:
  assumes "shouldMergeOnBlocksContentLevel h (cmd e) (model e) = Inr should"
  shows "checkEnabled h (cmd e) (model e) =
           Inr (isListItemBlock h (model e)
                  (if should
                   then snd (getBoundaryElements h (cmd e) (model e) (selection (model e)) should)
                   else fst (getBoundaryElements h (cmd e) (model e) (selection (model e)) should)))
         \<and> refresh h e =
           Inr (e\<lparr>cmd := (cmd e)\<lparr>isEnabled :=
                  isListItemBlock h (model e)
                    (if should
                     then snd (getBoundaryElements h (cmd e) (model e) (selection (model e)) should)
                     else fst (getBoundaryElements h (cmd e) (model e) (selection (model e)) should))\<rparr>\<rparr>)"
  using assms by (simp add: checkEnabled_def refresh_def split: prod.splits)

theorem checkEnabled_boundary_witness:
  "checkEnabled smallHost (constructor Backward) afterParagraph = Inr False
   \<and> checkEnabled smallHost (constructor Backward) nestedList = Inr True
   \<and> checkEnabled smallHost (constructor Forward) nestedList = Inr True
   \<and> refresh smallHost (editorOf Forward nestedList)
       = Inr ((editorOf Forward nestedList)\<lparr>cmd := (constructor Forward)\<lparr>isEnabled := True\<rparr>\<rparr>)"
proof -
  have a: "shouldMergeOnBlocksContentLevel smallHost (cmd (editorOf Backward afterParagraph))
             (model (editorOf Backward afterParagraph)) = Inr False"
    by (simp add: shouldMergeOnBlocksContentLevel_def small_defs)
  have b: "shouldMergeOnBlocksContentLevel smallHost (cmd (editorOf Backward nestedList))
             (model (editorOf Backward nestedList)) = Inr False"
    by (simp add: shouldMergeOnBlocksContentLevel_def small_defs)
  have c: "shouldMergeOnBlocksContentLevel smallHost (cmd (editorOf Forward nestedList))
             (model (editorOf Forward nestedList)) = Inr True"
    by (simp add: shouldMergeOnBlocksContentLevel_def small_defs)
  show ?thesis
    using checkEnabled_boundary [OF a] checkEnabled_boundary [OF b] checkEnabled_boundary [OF c]
    by (simp add: getBoundaryElements_def small_defs)
qed

lemma shouldMerge_direction:
  "direction c' = direction c \<Longrightarrow>
     shouldMergeOnBlocksContentLevel h c' d = shouldMergeOnBlocksContentLevel h c d"
  by (simp add: shouldMergeOnBlocksContentLevel_def)

lemma getBoundaryElements_direction:
  "direction c' = direction c \<Longrightarrow>
     getBoundaryElements h c' d s b = getBoundaryElements h c d s b"
  by (simp add: getBoundaryElements_def)

lemma checkEnabled_direction:
  assumes "direction c' = direction c"
  shows "checkEnabled h c' d = checkEnabled h c d"
  unfolding checkEnabled_def
    shouldMerge_direction [OF assms] getBoundaryElements_direction [OF assms] ..

lemma refresh_check:
  assumes "refresh h e = Inr e'"
  shows "checkEnabled h (cmd e') (model e') = checkEnabled h (cmd e) (model e)"
proof -
  from assms obtain b where "e' = e\<lparr>cmd := (cmd e)\<lparr>isEnabled := b\<rparr>\<rparr>"
    by (auto simp add: refresh_def split: sum.splits)
  then show ?thesis
    using checkEnabled_direction [of "cmd e'" "cmd e" h "model e"] by simp
qed


subsection \<open>Repeated refresh\<close>

lemma refresh_again:
  assumes "refresh h e = Inr e'"
  shows "refresh h e' = Inr e'"
proof -
  from assms obtain b where b: "checkEnabled h (cmd e) (model e) = Inr b"
    and e': "e' = e\<lparr>cmd := (cmd e)\<lparr>isEnabled := b\<rparr>\<rparr>"
    by (auto simp add: refresh_def split: sum.splits)
  from refresh_check [OF assms] b have "checkEnabled h (cmd e') (model e') = Inr b" by simp
  then show ?thesis by (simp add: refresh_def e')
qed

lemma refreshTimes_fixed: "refresh h e = Inr e \<Longrightarrow> refreshTimes h n e = Inr e"
  by (induction n) simp_all

lemma twoItems_should:
  "shouldMergeOnBlocksContentLevel smallHost (cmd (editorOf Backward twoItems))
     (model (editorOf Backward twoItems)) = Inr False"
  by (simp add: shouldMergeOnBlocksContentLevel_def small_defs)

lemma twoItems_boundary:
  "getBoundaryElements smallHost (cmd (editorOf Backward twoItems))
     (model (editorOf Backward twoItems)) (selection (model (editorOf Backward twoItems))) False
   = (Some 0, Some 1)"
  by (simp add: getBoundaryElements_def small_defs)

text \<open>
  C7. With the document and the selection fixed, every refresh yields the same result:
  after any number of refreshes the enablement check returns what it returned at the
  start, and a run of refreshes leaves the command as the first refresh left it.
\<close>

theorem refresh_same_boolean:
  "(refreshTimes h n e = Inr e' \<longrightarrow>
      checkEnabled h (cmd e') (model e') = checkEnabled h (cmd e) (model e))
   \<and> (refresh h e = Inr e1 \<longrightarrow> refreshTimes h (Suc n) e = Inr e1)"
proof (intro conjI impI)
  assume "refreshTimes h n e = Inr e'"
  then show "checkEnabled h (cmd e') (model e') = checkEnabled h (cmd e) (model e)"
  proof (induction n arbitrary: e)
    case 0
    then show ?case by simp
  next
    case (Suc n)
    then obtain e2 where r: "refresh h e = Inr e2" and t: "refreshTimes h n e2 = Inr e'"
      by (auto split: sum.splits)
    from Suc.IH [OF t] refresh_check [OF r] show ?case by simp
  qed
next
  assume r: "refresh h e = Inr e1"
  from refreshTimes_fixed [OF refresh_again [OF r]] r
  show "refreshTimes h (Suc n) e = Inr e1" by simp
qed

theorem refresh_same_boolean_witness:
  "refreshTimes smallHost 3 (editorOf Backward twoItems)
     = Inr ((editorOf Backward twoItems)\<lparr>cmd := (constructor Backward)\<lparr>isEnabled := True\<rparr>\<rparr>)
   \<and> checkEnabled smallHost ((constructor Backward)\<lparr>isEnabled := True\<rparr>) twoItems
     = checkEnabled smallHost (constructor Backward) twoItems"
proof -
  let ?E = "editorOf Backward twoItems"
  let ?E1 = "?E\<lparr>cmd := (constructor Backward)\<lparr>isEnabled := True\<rparr>\<rparr>"
  have r: "refresh smallHost ?E = Inr ?E1"
    by (simp add: refresh_def checkEnabled_def twoItems_should twoItems_boundary)
       (simp add: small_defs)
  from refresh_same_boolean [where h = smallHost and e = ?E and ?e1.0 = ?E1 and n = 2] r
  have t: "refreshTimes smallHost 3 ?E = Inr ?E1"
    by (simp add: eval_nat_numeral)
  from refresh_same_boolean [where h = smallHost and e = ?E and e' = ?E1 and n = 3] t
  have "checkEnabled smallHost (cmd ?E1) (model ?E1) = checkEnabled smallHost (cmd ?E) (model ?E)"
    by blast
  with t show ?thesis by (simp add: editorOf_def)
qed

subsection \<open>The shape of an execution\<close>

lemma execute_eq:
  assumes "shouldMergeOnBlocksContentLevel h (cmd e) (model e) = Inr should"
      and "getBoundaryElements h (cmd e) (model e) (selection (model e)) should = (Some fe, Some le)"
      and "executeIndent h (model e) fe le = (changed1, calls1, d1)"
      and "executeMerge h d1 should fe le (listItemId (node (model e) le)) = (changed2, calls2, d2)"
  shows "execute h e =
           Inr (e\<lparr>model := d2,
                  events := events e @ [ChangeBegin] @ calls1 @ calls2
                            @ fireAfterExecute d2 (changed1 @ changed2) @ [ChangeEnd]\<rparr>)"
  using assms by (simp add: execute_def)

lemma execute_Inr:
  assumes "execute h e = Inr e'"
  obtains should fe le changed1 calls1 d1 changed2 calls2 d2 where
    "shouldMergeOnBlocksContentLevel h (cmd e) (model e) = Inr should"
    "getBoundaryElements h (cmd e) (model e) (selection (model e)) should = (Some fe, Some le)"
    "executeIndent h (model e) fe le = (changed1, calls1, d1)"
    "executeMerge h d1 should fe le (listItemId (node (model e) le)) = (changed2, calls2, d2)"
    "e' = e\<lparr>model := d2,
             events := events e @ [ChangeBegin] @ calls1 @ calls2
                       @ fireAfterExecute d2 (changed1 @ changed2) @ [ChangeEnd]\<rparr>"
  using assms
  by (auto simp add: execute_def Let_def split: sum.splits prod.splits option.splits)

lemma executeIndent_calls:
  "fst (snd (executeIndent h d fe le)) =
     (if listIndent (node d le) = Some (indentOf d fe) then []
      else [IndentBlocks (le # getNestedListBlocks h d le)
              (case listIndent (node d le) of None \<Rightarrow> NaN
               | Some l \<Rightarrow> Num (indentOf d fe - l))
              (case listIndent (node d le) of None \<Rightarrow> False
               | Some l \<Rightarrow> indentOf d fe < l)])"
  unfolding indentOf_def by (simp add: executeIndent_def Let_def split: prod.splits)

lemma executeIndent_calls_indent:
  "executeIndent h d fe le = (changed, calls, d') \<Longrightarrow> list_all isIndentCall calls"
  by (auto simp add: executeIndent_def Let_def split: prod.splits option.splits if_splits)

lemma executeMerge_calls_merge:
  "executeMerge h d should fe le i = (changed, calls, d') \<Longrightarrow>
     calls \<noteq> [] \<and> list_all isMergeCall calls"
  by (auto simp add: executeMerge_def Let_def split: prod.splits option.splits if_splits)

lemma merge_not_indent: "isMergeCall c \<Longrightarrow> \<not> isIndentCall c"
  by (cases c) simp_all


lemma triple: "t = (fst t, fst (snd t), snd (snd t))"
  by simp

text \<open>The command on the example documents.\<close>

lemma nestedList_should:
  "shouldMergeOnBlocksContentLevel smallHost (cmd (editorOf Backward nestedList))
     (model (editorOf Backward nestedList)) = Inr False"
  by (simp add: shouldMergeOnBlocksContentLevel_def small_defs)

lemma nestedList_boundary:
  "getBoundaryElements smallHost (cmd (editorOf Backward nestedList))
     (model (editorOf Backward nestedList)) (selection (model (editorOf Backward nestedList))) False
   = (Some 0, Some 1)"
  by (simp add: getBoundaryElements_def small_defs)

lemma nestedList_indent:
  "listIndent (node (model (editorOf Backward nestedList)) (Suc 0)) = Some 1"
  "indentOf (model (editorOf Backward nestedList)) 0 = 0"
  "getNestedListBlocks smallHost (model (editorOf Backward nestedList)) (Suc 0) = [2]"
  by (simp_all add: small_defs)

lemma inward_should:
  "shouldMergeOnBlocksContentLevel smallHost (cmd (editorOf Forward inward))
     (model (editorOf Forward inward)) = Inr True"
  by (simp add: shouldMergeOnBlocksContentLevel_def small_defs)

lemma inward_boundary:
  "getBoundaryElements smallHost (cmd (editorOf Forward inward))
     (model (editorOf Forward inward)) (selection (model (editorOf Forward inward))) True
   = (Some 1, Some 2)"
  by (simp add: getBoundaryElements_def small_defs)

lemma inward_indent:
  "listIndent (node (model (editorOf Forward inward)) 2) = Some 0"
  "indentOf (model (editorOf Forward inward)) (Suc 0) = 1"
  "getNestedListBlocks smallHost (model (editorOf Forward inward)) 2 = []"
  by (simp_all add: small_defs)

lemma twoItems_indent:
  "listIndent (node (model (editorOf Backward twoItems)) (Suc 0)) = Some 0"
  "indentOf (model (editorOf Backward twoItems)) 0 = 0"
  by (simp_all add: small_defs)

lemma twoItems_executeIndent:
  "executeIndent smallHost (model (editorOf Backward twoItems)) 0 1
     = ([], [], model (editorOf Backward twoItems))"
  by (simp add: executeIndent_def Let_def small_defs)

lemma afterList_should:
  "shouldMergeOnBlocksContentLevel smallHost (cmd (editorOf Backward afterList))
     (model (editorOf Backward afterList)) = Inr False"
  by (simp add: shouldMergeOnBlocksContentLevel_def small_defs)

lemma afterList_boundary:
  "getBoundaryElements smallHost (cmd (editorOf Backward afterList))
     (model (editorOf Backward afterList)) (selection (model (editorOf Backward afterList))) False
   = (Some 0, Some 1)"
  by (simp add: getBoundaryElements_def small_defs)

lemma afterList_indent:
  "listIndent (node (model (editorOf Backward afterList)) (Suc 0)) = None"
  "getNestedListBlocks smallHost (model (editorOf Backward afterList)) (Suc 0) = []"
  by (simp_all add: small_defs)

lemma oneItem_should:
  "shouldMergeOnBlocksContentLevel smallHost (cmd (editorOf Backward oneItem))
     (model (editorOf Backward oneItem)) = Inr True"
  by (simp add: shouldMergeOnBlocksContentLevel_def small_defs)

lemma oneItem_boundary:
  "getBoundaryElements smallHost (cmd (editorOf Backward oneItem))
     (model (editorOf Backward oneItem)) (selection (model (editorOf Backward oneItem))) True
   = (Some 0, Some 1)"
  by (simp add: getBoundaryElements_def small_defs)

lemma oneItem_executeIndent:
  "executeIndent smallHost (model (editorOf Backward oneItem)) 0 1
     = ([], [], model (editorOf Backward oneItem))"
  by (simp add: executeIndent_def Let_def small_defs)

lemma twoBlockItem_should:
  "shouldMergeOnBlocksContentLevel smallHost (cmd (editorOf Forward twoBlockItem))
     (model (editorOf Forward twoBlockItem)) = Inr True"
  by (simp add: shouldMergeOnBlocksContentLevel_def small_defs)

lemma twoBlockItem_boundary:
  "getBoundaryElements smallHost (cmd (editorOf Forward twoBlockItem))
     (model (editorOf Forward twoBlockItem)) (selection (model (editorOf Forward twoBlockItem))) True
   = (Some 0, Some 1)"
  by (simp add: getBoundaryElements_def small_defs)


lemma twoBlockItem_selection:
  "isCollapsed (selection (model (editorOf Forward twoBlockItem)))"
  "createSelection (createPositionAtEnd (model (editorOf Forward twoBlockItem)) 0)
     (createPositionAt (Suc 0) 0) = rangeOver 0 3 (Suc 0) 0"
  "listItemId (node (model (editorOf Forward twoBlockItem)) (Suc 0)) = Some ''b''"
  by (simp_all add: small_defs)

lemma twoBlockItem_delete:
  "parent (lastPosition (fst (deleteContent smallHost (Detached (rangeOver 0 3 (Suc 0) 0)) True
     (model (editorOf Forward twoBlockItem))))) = 0"
  "nextSibling (snd (deleteContent smallHost (Detached (rangeOver 0 3 (Suc 0) 0)) True
     (model (editorOf Forward twoBlockItem)))) 0 = Some 2"
  "listItemId (node (snd (deleteContent smallHost (Detached (rangeOver 0 3 (Suc 0) 0)) True
     (model (editorOf Forward twoBlockItem)))) 2) = Some ''b''"
  by (simp_all add: small_defs Let_def)

text \<open>
  C9. The direction is the one given to the constructor, and no operation of the command
  changes it: \<^verbatim>\<open>refresh\<close> keeps it, and \<^verbatim>\<open>execute\<close>, which fires the event, leaves the whole
  command object as it was.
\<close>

theorem direction_fixed:
  "direction (constructor dir) = dir
   \<and> (refresh h e = Inr e' \<longrightarrow> direction (cmd e') = direction (cmd e))
   \<and> (execute h e = Inr e'' \<longrightarrow> cmd e'' = cmd e)"
proof (intro conjI impI)
  show "direction (constructor dir) = dir" by (simp add: constructor_def)
next
  assume "refresh h e = Inr e'"
  then show "direction (cmd e') = direction (cmd e)"
    by (auto simp add: refresh_def split: sum.splits)
next
  assume "execute h e = Inr e''"
  then show "cmd e'' = cmd e" by (rule execute_Inr) simp
qed

theorem direction_fixed_witness:
  "direction (constructor Backward) = Backward
   \<and> refresh smallHost (editorOf Backward twoItems) \<noteq> Inl TypeError
   \<and> direction (cmd (projr (refresh smallHost (editorOf Backward twoItems)))) = Backward
   \<and> execute smallHost (editorOf Backward twoItems) \<noteq> Inl TypeError
   \<and> cmd (projr (execute smallHost (editorOf Backward twoItems))) = constructor Backward"
proof -
  let ?E = "editorOf Backward twoItems"
  obtain e1 where e1: "refresh smallHost ?E = Inr e1"
    by (simp add: refresh_def checkEnabled_def twoItems_should twoItems_boundary)
  from execute_eq [OF twoItems_should twoItems_boundary twoItems_executeIndent triple]
  obtain e2 where e2: "execute smallHost ?E = Inr e2"
    by blast
  have c: "cmd ?E = constructor Backward" by (simp add: editorOf_def)
  from direction_fixed [where dir = Backward and h = smallHost and e = ?E and e' = e1 and e'' = e2]
    e1 e2 c
  show ?thesis by (simp add: constructor_def)
qed

lemma executeIndent_result:
  "executeIndent h d fe le =
     (if listIndent (node d le) = Some (indentOf d fe) then ([], [], d)
      else (fst (indentBlocks h (le # getNestedListBlocks h d le)
                   (jsMinus (indentOf d fe) (listIndent (node d le)))
                   (jsLess (indentOf d fe) (listIndent (node d le))) d),
            [IndentBlocks (le # getNestedListBlocks h d le)
               (jsMinus (indentOf d fe) (listIndent (node d le)))
               (jsLess (indentOf d fe) (listIndent (node d le)))],
            snd (indentBlocks h (le # getNestedListBlocks h d le)
                   (jsMinus (indentOf d fe) (listIndent (node d le)))
                   (jsLess (indentOf d fe) (listIndent (node d le))) d)))"
  unfolding executeIndent_def indentOf_def jsMinus_def jsLess_def
  by (simp add: Let_def split: prod.splits)

lemma executeMerge_structural_result:
  "executeMerge h d False fe le i =
     (fst (mergeListItemBefore h le fe d), [MergeListItemBefore le fe],
      snd (mergeListItemBefore h le fe d))"
  by (simp add: executeMerge_def split: prod.splits)

lemma executeMerge_content_result:
  assumes "sel = (if isCollapsed (selection d)
                  then Detached (createSelection (createPositionAtEnd d fe) (createPositionAt le 0))
                  else DocumentSelection)"
      and "deleteContent h sel (isCollapsed (selection d)) d = (own, d')"
      and "lastElementAfterDelete =
             parent (lastPosition (if isCollapsed (selection d) then own else selection d'))"
  shows "executeMerge h d True fe le i =
           (case nextSibling d' lastElementAfterDelete of
              None \<Rightarrow>
                ([lastElementAfterDelete], [DeleteContent sel (isCollapsed (selection d))], d')
            | Some next \<Rightarrow>
                if next \<noteq> le \<and> listItemId (node d' next) = i
                then (lastElementAfterDelete
                        # fst (mergeListItemBefore h next lastElementAfterDelete d'),
                      [DeleteContent sel (isCollapsed (selection d)),
                       MergeListItemBefore next lastElementAfterDelete],
                      snd (mergeListItemBefore h next lastElementAfterDelete d'))
                else ([lastElementAfterDelete],
                      [DeleteContent sel (isCollapsed (selection d))], d'))"
  using assms
  by (simp add: executeMerge_def Let_def split: prod.splits option.splits)

lemma replay_append:
  "replay h (xs @ ys) d =
     (case replay h xs d of
        (a, d') \<Rightarrow> (case replay h ys d' of (b, d'') \<Rightarrow> (a @ b, d'')))"
  by (induction xs arbitrary: d) (simp_all split: prod.splits)

lemma replay_executeIndent:
  "executeIndent h d fe le = (c, l, d') \<Longrightarrow> replay h l d = (c, d')"
  by (auto simp add: executeIndent_def Let_def split: prod.splits if_splits)

lemma replay_executeMerge:
  "executeMerge h d s fe le i = (c, l, d') \<Longrightarrow> replay h l d = (c, d')"
  by (auto simp add: executeMerge_def Let_def split: prod.splits if_splits option.splits)

lemma observed_calls:
  "\<forall>c \<in> set calls. isIndentCall c \<or> isMergeCall c \<Longrightarrow>
     observed h True d (calls @ rest) = observed h True (snd (replay h calls d)) rest"
proof (induction calls arbitrary: d)
  case Nil
  then show ?case by simp
next
  case (Cons c cs)
  then have ih: "\<And>d. observed h True d (cs @ rest) = observed h True (snd (replay h cs d)) rest"
    by simp
  from Cons.prems have "isIndentCall c \<or> isMergeCall c" by simp
  then show ?case
    by (cases c) (simp_all add: ih split: prod.splits)
qed

text \<open>
  C8. An execution that returns adds to the record one change block: it opens, then come
  the calls that change the model (at least one), then the event, then the block ends.
  Running these calls in order on the document from before the execution gives the
  document after it, so every change of the document is one of the calls inside the
  block. An observer outside the block sees one document only, the final one, and none
  of the documents in between the calls.
\<close>

theorem execute_single_change:
  assumes "execute h e = Inr e'"
  shows "observed h False (model e) (newEvents e e') = [model e']
         \<and> (\<exists>calls payload.
               events e' = events e @ ChangeBegin # calls @ [Fire ''afterExecute'' payload, ChangeEnd]
               \<and> calls \<noteq> [] \<and> (\<forall>c \<in> set calls. isIndentCall c \<or> isMergeCall c)
               \<and> snd (replay h calls (model e)) = model e')"
  using assms
proof (rule execute_Inr)
  fix should fe le changed1 calls1 d1 changed2 calls2 d2
  assume i: "executeIndent h (model e) fe le = (changed1, calls1, d1)"
    and m: "executeMerge h d1 should fe le (listItemId (node (model e) le)) = (changed2, calls2, d2)"
    and e': "e' = e\<lparr>model := d2,
             events := events e @ [ChangeBegin] @ calls1 @ calls2
                       @ fireAfterExecute d2 (changed1 @ changed2) @ [ChangeEnd]\<rparr>"
  let ?p = "sortBlocks d2 (newSet (changed1 @ changed2))"
  have ev: "events e' = events e @ ChangeBegin # (calls1 @ calls2) @ [Fire ''afterExecute'' ?p, ChangeEnd]"
    using e' by (simp add: fireAfterExecute_def)
  have ne: "calls1 @ calls2 \<noteq> []"
    using executeMerge_calls_merge [OF m] by simp
  have all: "\<forall>c \<in> set (calls1 @ calls2). isIndentCall c \<or> isMergeCall c"
    using executeMerge_calls_merge [OF m] executeIndent_calls_indent [OF i]
    by (auto simp add: list_all_iff)
  have rp: "replay h (calls1 @ calls2) (model e) = (changed1 @ changed2, d2)"
    by (simp add: replay_append replay_executeIndent [OF i] replay_executeMerge [OF m])
  have md: "model e' = d2" using e' by simp
  have new: "newEvents e e' = ChangeBegin # (calls1 @ calls2) @ [Fire ''afterExecute'' ?p, ChangeEnd]"
    using ev by (simp add: newEvents_def)
  have "observed h False (model e) (newEvents e e')
          = observed h True (model e) ((calls1 @ calls2) @ [Fire ''afterExecute'' ?p, ChangeEnd])"
    unfolding new by simp
  also have "\<dots> = observed h True (snd (replay h (calls1 @ calls2) (model e)))
                     [Fire ''afterExecute'' ?p, ChangeEnd]"
    by (rule observed_calls [OF all])
  also have "\<dots> = [d2]" by (simp add: rp)
  finally have ob: "observed h False (model e) (newEvents e e') = [model e']"
    using md by simp
  from ev ne all rp md have "\<exists>calls payload.
      events e' = events e @ ChangeBegin # calls @ [Fire ''afterExecute'' payload, ChangeEnd]
      \<and> calls \<noteq> [] \<and> (\<forall>c \<in> set calls. isIndentCall c \<or> isMergeCall c)
      \<and> snd (replay h calls (model e)) = model e'"
    by (intro exI [of _ "calls1 @ calls2"] exI [of _ ?p]) simp
  with ob show ?thesis by simp
qed

theorem execute_single_change_witness:
  "execute smallHost (editorOf Backward oneItem) \<noteq> Inl TypeError
   \<and> hd (events (projr (execute smallHost (editorOf Backward oneItem)))) = ChangeBegin
   \<and> last (events (projr (execute smallHost (editorOf Backward oneItem)))) = ChangeEnd
   \<and> observed smallHost False (model (editorOf Backward oneItem))
         (newEvents (editorOf Backward oneItem)
            (projr (execute smallHost (editorOf Backward oneItem))))
       = [model (projr (execute smallHost (editorOf Backward oneItem)))]"
proof -
  from execute_eq [OF oneItem_should oneItem_boundary oneItem_executeIndent triple]
  obtain e' where e': "execute smallHost (editorOf Backward oneItem) = Inr e'"
    by blast
  note execute_single_change [OF e']
  then obtain calls payload where
    o: "observed smallHost False (model (editorOf Backward oneItem))
          (newEvents (editorOf Backward oneItem) e') = [model e']"
    and "events e' = events (editorOf Backward oneItem)
       @ ChangeBegin # calls @ [Fire ''afterExecute'' payload, ChangeEnd]"
    apply -
    apply (elim exE conjE)
    apply (rule that)
     apply assumption+
    done
  then have "hd (events e') = ChangeBegin \<and> last (events e') = ChangeEnd"
    by (simp add: editorOf_def)
  with e' o show ?thesis by simp
qed

subsection \<open>Indent reconciliation\<close>

lemma fold_setIndent_other:
  "b \<notin> set bs \<Longrightarrow> node (fold (setIndent k) bs d) b = node d b"
  by (induction bs arbitrary: d) (simp_all add: setIndent_def)

lemma smallHost_reindents: "reindents smallHost"
  unfolding reindents_def
  by (simp add: smallHost_def smallIndentBlocks_def fold_setIndent_other)
     (simp add: setIndent_def indentOf_def)


lemma execute_indent_calls:
  assumes "shouldMergeOnBlocksContentLevel h (cmd e) (model e) = Inr should"
      and "getBoundaryElements h (cmd e) (model e) (selection (model e)) should = (Some fe, Some le)"
  shows "map_sum id (\<lambda>e'. filter isIndentCall (newEvents e e')) (execute h e)
           = Inr (fst (snd (executeIndent h (model e) fe le)))"
proof -
  obtain changed1 calls1 d0 where i: "executeIndent h (model e) fe le = (changed1, calls1, d0)"
    by (cases "executeIndent h (model e) fe le") auto
  obtain changed2 calls2 d2 where
    m: "executeMerge h d0 should fe le (listItemId (node (model e) le)) = (changed2, calls2, d2)"
    by (cases "executeMerge h d0 should fe le (listItemId (node (model e) le))") auto
  have nomerge: "filter isIndentCall calls2 = []"
    using executeMerge_calls_merge [OF m]
    by (auto simp add: list_all_iff filter_empty_conv dest: merge_not_indent)
  have all: "filter isIndentCall calls1 = calls1"
    using executeIndent_calls_indent [OF i] by (simp add: list_all_iff)
  show ?thesis
    using nomerge all i
    by (simp add: execute_eq [OF assms i m] newEvents_def fireAfterExecute_def)
qed

lemma beforeList_should:
  "shouldMergeOnBlocksContentLevel smallHost (cmd (editorOf Forward beforeList))
     (model (editorOf Forward beforeList)) = Inr True"
  by (simp add: shouldMergeOnBlocksContentLevel_def small_defs)

lemma beforeList_boundary:
  "getBoundaryElements smallHost (cmd (editorOf Forward beforeList))
     (model (editorOf Forward beforeList)) (selection (model (editorOf Forward beforeList))) True
   = (Some 0, Some 1)"
  by (simp add: getBoundaryElements_def small_defs)

lemma beforeList_indent:
  "listIndent (node (model (editorOf Forward beforeList)) 0) = None"
  "listIndent (node (model (editorOf Forward beforeList)) (Suc 0)) = Some 0"
  "indentOf (model (editorOf Forward beforeList)) 0 = 0"
  by (simp_all add: small_defs)

lemma afterList_first:
  "listIndent (node (model (editorOf Backward afterList)) 0) = Some 0"
  "indentOf (model (editorOf Backward afterList)) 0 = 0"
  by (simp_all add: small_defs)

lemma nestedList_last: "listIndent (node (model (editorOf Backward nestedList)) 1) = Some 1"
  by (simp add: small_defs)

lemma inward_last: "listIndent (node (model (editorOf Forward inward)) 2) = Some 0"
  by (simp add: small_defs)

lemma twoItems_last: "listIndent (node (model (editorOf Backward twoItems)) 1) = Some 0"
  by (simp add: small_defs)

text \<open>
  C4, as the claim states it, fails. Forward merge at the end of a plain paragraph that
  a list block of indent 0 follows: the first boundary block carries no \<^verbatim>\<open>listIndent\<close>,
  the last one carries 0, and nothing is re-indented, as \<^verbatim>\<open>firstIndent\<close> is
  \<^verbatim>\<open>getAttribute( 'listIndent' ) || 0\<close>. Backward merge at the start of a plain
  paragraph that follows a list block of indent 0: the last boundary block carries no
  \<^verbatim>\<open>listIndent\<close>, and \<^verbatim>\<open>indentBlocks\<close> is called with \<^verbatim>\<open>NaN\<close>, which is no difference
  of two levels.
\<close>

theorem execute_indent_counterexample:
  "listIndent (node (model (editorOf Forward beforeList)) 0) = None
   \<and> listIndent (node (model (editorOf Forward beforeList)) 1) = Some 0
   \<and> getBoundaryElements smallHost (cmd (editorOf Forward beforeList))
         (model (editorOf Forward beforeList)) (selection (model (editorOf Forward beforeList)))
         True = (Some 0, Some 1)
   \<and> map_sum id (\<lambda>e'. filter isIndentCall (newEvents (editorOf Forward beforeList) e'))
         (execute smallHost (editorOf Forward beforeList)) = Inr []
   \<and> listIndent (node (model (editorOf Backward afterList)) 0) = Some 0
   \<and> listIndent (node (model (editorOf Backward afterList)) 1) = None
   \<and> getBoundaryElements smallHost (cmd (editorOf Backward afterList))
         (model (editorOf Backward afterList)) (selection (model (editorOf Backward afterList)))
         False = (Some 0, Some 1)
   \<and> map_sum id (\<lambda>e'. filter isIndentCall (newEvents (editorOf Backward afterList) e'))
         (execute smallHost (editorOf Backward afterList)) = Inr [IndentBlocks [1] NaN False]"
  by (simp add: execute_indent_calls [OF beforeList_should beforeList_boundary]
        execute_indent_calls [OF afterList_should afterList_boundary]
        beforeList_boundary afterList_boundary executeIndent_calls
        beforeList_indent afterList_indent afterList_first)

text \<open>
  C4, amended. The indent level of the first boundary block is its \<^verbatim>\<open>listIndent\<close>, or 0
  when it carries none. When the last boundary block carries a \<^verbatim>\<open>listIndent\<close> \<open>l\<close> that
  differs from that level, \<^verbatim>\<open>indentBlocks\<close> is called once, on the last block followed by
  its nested blocks, to indent by the difference, with \<^verbatim>\<open>expand\<close> set exactly when the
  first level is less than \<open>l\<close> (an outdent); the merge then runs on the document that
  this call leaves, and in that document, for a host that re-indents as the spec says,
  the last block has the level of the first. When \<open>l\<close> is that level, \<^verbatim>\<open>indentBlocks\<close> is
  not called and the merge runs on the document as it was. Nothing is said of a last
  block that carries no \<^verbatim>\<open>listIndent\<close>.
\<close>

theorem execute_indent:
  assumes "shouldMergeOnBlocksContentLevel h (cmd e) (model e) = Inr should"
      and "getBoundaryElements h (cmd e) (model e) (selection (model e)) should = (Some fe, Some le)"
      and "listIndent (node (model e) le) = Some l"
      and "indentBlocks h (le # getNestedListBlocks h (model e) le)
             (Num (indentOf (model e) fe - l)) (indentOf (model e) fe < l) (model e)
           = (reindented, d1)"
  shows "\<exists>e'. execute h e = Inr e'
           \<and> (l = indentOf (model e) fe \<longrightarrow>
                filter isIndentCall (newEvents e e') = []
                \<and> model e' =
                    snd (snd (executeMerge h (model e) should fe le (listItemId (node (model e) le)))))
           \<and> (l \<noteq> indentOf (model e) fe \<longrightarrow>
                filter isIndentCall (newEvents e e') =
                  [IndentBlocks (le # getNestedListBlocks h (model e) le)
                     (Num (indentOf (model e) fe - l)) (indentOf (model e) fe < l)]
                \<and> model e' =
                    snd (snd (executeMerge h d1 should fe le (listItemId (node (model e) le))))
                \<and> (reindents h \<and> le \<notin> set (getNestedListBlocks h (model e) le)
                     \<and> 0 \<le> indentOf (model e) fe \<longrightarrow>
                     listIndent (node d1 le) = Some (indentOf (model e) fe)))"
proof -
  let ?d = "model e" and ?i = "listItemId (node (model e) le)"
  obtain changed1 calls1 d0 where i: "executeIndent h ?d fe le = (changed1, calls1, d0)"
    by (cases "executeIndent h ?d fe le") auto
  obtain changed2 calls2 d2 where m: "executeMerge h d0 should fe le ?i = (changed2, calls2, d2)"
    by (cases "executeMerge h d0 should fe le ?i") auto
  let ?e' = "e\<lparr>model := d2,
                events := events e @ [ChangeBegin] @ calls1 @ calls2
                          @ fireAfterExecute d2 (changed1 @ changed2) @ [ChangeEnd]\<rparr>"
  have ex: "execute h e = Inr ?e'" by (rule execute_eq [OF assms(1) assms(2) i m])
  have nomerge: "filter isIndentCall calls2 = []"
    using executeMerge_calls_merge [OF m]
    by (auto simp add: list_all_iff filter_empty_conv dest: merge_not_indent)
  have all: "filter isIndentCall calls1 = calls1"
    using executeIndent_calls_indent [OF i] by (simp add: list_all_iff)
  have new: "filter isIndentCall (newEvents e ?e') = calls1"
    using nomerge all by (simp add: newEvents_def fireAfterExecute_def)
  have md: "model ?e' = snd (snd (executeMerge h d0 should fe le ?i))" using m by simp
  from ex new md obtain e' where e': "execute h e = Inr e'"
    and f: "filter isIndentCall (newEvents e e') = calls1"
    and g: "model e' = snd (snd (executeMerge h d0 should fe le ?i))"
    by blast
  have r: "executeIndent h ?d fe le =
             (if l = indentOf ?d fe then ([], [], ?d)
              else (reindented,
                    [IndentBlocks (le # getNestedListBlocks h ?d le)
                       (Num (indentOf ?d fe - l)) (indentOf ?d fe < l)], d1))"
    using assms(3) assms(4) by (simp add: executeIndent_result jsMinus_def jsLess_def)
  have same: "l = indentOf ?d fe \<Longrightarrow> calls1 = [] \<and> d0 = ?d"
    using i r by simp
  have differ: "l \<noteq> indentOf ?d fe \<Longrightarrow>
      calls1 = [IndentBlocks (le # getNestedListBlocks h ?d le)
                  (Num (indentOf ?d fe - l)) (indentOf ?d fe < l)] \<and> d0 = d1"
    using i r by simp
  have level: "reindents h \<and> le \<notin> set (getNestedListBlocks h ?d le) \<and> 0 \<le> indentOf ?d fe
               \<longrightarrow> listIndent (node d1 le) = Some (indentOf ?d fe)"
  proof
    assume a: "reindents h \<and> le \<notin> set (getNestedListBlocks h ?d le) \<and> 0 \<le> indentOf ?d fe"
    then have R: "reindents h" and n: "le \<notin> set (getNestedListBlocks h ?d le)"
      and z: "0 \<le> l + (indentOf ?d fe - l)"
      by simp_all
    have "listIndent (node (snd (indentBlocks h (le # getNestedListBlocks h ?d le)
                 (Num (indentOf ?d fe - l)) (indentOf ?d fe < l) ?d)) le)
               = Some (l + (indentOf ?d fe - l))"
      using assms(3) n z by (intro R [unfolded reindents_def, rule_format]) simp
    then show "listIndent (node d1 le) = Some (indentOf ?d fe)"
      using assms(4) by simp
  qed
  show ?thesis
    using e' f g same differ level by (intro exI [of _ e']) simp
qed

theorem execute_indent_witness:
  "map_sum id (\<lambda>e'. filter isIndentCall (newEvents (editorOf Backward nestedList) e'))
     (execute smallHost (editorOf Backward nestedList))
     = Inr [IndentBlocks [1, 2] (Num (- 1)) True]
   \<and> listIndent (node (snd (indentBlocks smallHost [1, 2] (Num (- 1)) True
                               (model (editorOf Backward nestedList)))) 1) = Some 0
   \<and> map_sum id (\<lambda>e'. filter isIndentCall (newEvents (editorOf Forward inward) e'))
     (execute smallHost (editorOf Forward inward))
     = Inr [IndentBlocks [2] (Num 1) False]
   \<and> listIndent (node (snd (indentBlocks smallHost [2] (Num 1) False
                               (model (editorOf Forward inward)))) 2) = Some 1
   \<and> map_sum id (\<lambda>e'. filter isIndentCall (newEvents (editorOf Backward twoItems) e'))
     (execute smallHost (editorOf Backward twoItems))
     = Inr []"
proof -
  note execute_indent [OF nestedList_should nestedList_boundary nestedList_last surjective_pairing]
  then obtain e1 where e1: "execute smallHost (editorOf Backward nestedList) = Inr e1"
    and a: "filter isIndentCall (newEvents (editorOf Backward nestedList) e1)
              = [IndentBlocks [1, 2] (Num (- 1)) True]"
    and a': "listIndent (node (snd (indentBlocks smallHost [1, 2] (Num (- 1)) True
                                (model (editorOf Backward nestedList)))) 1) = Some 0"
    by (auto simp add: nestedList_indent smallHost_reindents)
  note execute_indent [OF inward_should inward_boundary inward_last surjective_pairing]
  then obtain e2 where e2: "execute smallHost (editorOf Forward inward) = Inr e2"
    and b: "filter isIndentCall (newEvents (editorOf Forward inward) e2)
              = [IndentBlocks [2] (Num 1) False]"
    and b': "listIndent (node (snd (indentBlocks smallHost [2] (Num 1) False
                                (model (editorOf Forward inward)))) 2) = Some 1"
    by (auto simp add: inward_indent smallHost_reindents)
  note execute_indent [OF twoItems_should twoItems_boundary twoItems_last surjective_pairing]
  then obtain e3 where e3: "execute smallHost (editorOf Backward twoItems) = Inr e3"
    and c: "filter isIndentCall (newEvents (editorOf Backward twoItems) e3) = []"
    by (auto simp add: twoItems_indent)
  from a a' b b' c e1 e2 e3 show ?thesis by simp
qed

subsection \<open>The merge\<close>





subsection \<open>The event\<close>

lemma nth_indexOf: "r \<in> set xs \<Longrightarrow> xs ! indexOf r xs = r"
  by (induction xs) auto

lemma inj_on_indexOf: "inj_on (\<lambda>r. indexOf r xs) (set xs)"
proof (rule inj_onI)
  fix a b
  assume "a \<in> set xs" "b \<in> set xs" "indexOf a xs = indexOf b xs"
  then show "a = b" by (metis nth_indexOf)
qed

lemma set_newSet: "set (newSet xs) = set xs"
  by (simp add: newSet_def)

lemma distinct_newSet: "distinct (newSet xs)"
  by (simp add: newSet_def)

lemma sortBlocks_set: "set (sortBlocks d (newSet xs)) = set xs \<inter> set (children d)"
  by (auto simp add: sortBlocks_def set_newSet)

lemma sortBlocks_distinct: "distinct (sortBlocks d (newSet xs))"
  by (simp add: sortBlocks_def distinct_newSet)

lemma sortBlocks_sorted: "sorted (map (\<lambda>r. indexOf r (children d)) (sortBlocks d bs))"
  by (simp add: sortBlocks_def)

lemma sortBlocks_order:
  assumes "set xs = set ys"
  shows "sortBlocks d (newSet xs) = sortBlocks d (newSet ys)"
proof -
  let ?f = "\<lambda>r. indexOf r (children d)"
  let ?xs = "sortBlocks d (newSet xs)" and ?ys = "sortBlocks d (newSet ys)"
  have sx: "set ?xs \<subseteq> set (children d)" and sy: "set ?ys \<subseteq> set (children d)"
    by (simp_all add: sortBlocks_set)
  have ix: "inj_on ?f (set ?xs)" by (rule inj_on_subset [OF inj_on_indexOf sx])
  have iy: "inj_on ?f (set ?ys)" by (rule inj_on_subset [OF inj_on_indexOf sy])
  have sxy: "set ?xs \<union> set ?ys \<subseteq> set (children d)" using sx sy by blast
  have ixy: "inj_on ?f (set ?xs \<union> set ?ys)" by (rule inj_on_subset [OF inj_on_indexOf sxy])
  have dx: "distinct (map ?f ?xs)" using ix sortBlocks_distinct [of d xs] by (simp add: distinct_map)
  have dy: "distinct (map ?f ?ys)" using iy sortBlocks_distinct [of d ys] by (simp add: distinct_map)
  have eq: "set ?xs = set ?ys" using assms by (simp add: sortBlocks_set)
  show ?thesis
    by (rule map_sorted_distinct_set_unique [OF ixy sortBlocks_sorted dx sortBlocks_sorted dy eq])
qed

lemma inward_executeIndent:
  "fst (executeIndent smallHost (model (editorOf Forward inward)) (Suc 0) 2) = [2]"
  "fst (snd (executeIndent smallHost (model (editorOf Forward inward)) (Suc 0) 2))
     = [IndentBlocks [2] (Num 1) False]"
  "fst (indentBlocks smallHost [2] (Num 1) False (model (editorOf Forward inward))) = [2]"
  by (simp_all add: executeIndent_def Let_def small_defs)

lemma inward_merge:
  "fst (executeMerge smallHost
          (snd (snd (executeIndent smallHost (model (editorOf Forward inward)) (Suc 0) 2)))
          True (Suc 0) 2 (listItemId (node (model (editorOf Forward inward)) 2))) = [1]"
  "fst (snd (executeMerge smallHost
          (snd (snd (executeIndent smallHost (model (editorOf Forward inward)) (Suc 0) 2)))
          True (Suc 0) 2 (listItemId (node (model (editorOf Forward inward)) 2))))
     = [DeleteContent (Detached (rangeOver 1 3 2 0)) True]"
  "children (snd (snd (executeMerge smallHost
          (snd (snd (executeIndent smallHost (model (editorOf Forward inward)) (Suc 0) 2)))
          True (Suc 0) 2 (listItemId (node (model (editorOf Forward inward)) 2))))) = [0, 1]"
  by (simp_all add: executeMerge_def executeIndent_def Let_def small_defs)

lemma twoBlockItem_same:
  "([], model (editorOf Forward twoBlockItem)) =
     (if listIndent (node (model (editorOf Forward twoBlockItem)) 1)
           = Some (indentOf (model (editorOf Forward twoBlockItem)) 0)
      then ([], model (editorOf Forward twoBlockItem))
      else indentBlocks smallHost
             (1 # getNestedListBlocks smallHost (model (editorOf Forward twoBlockItem)) 1)
             (jsMinus (indentOf (model (editorOf Forward twoBlockItem)) 0)
                (listIndent (node (model (editorOf Forward twoBlockItem)) 1)))
             (jsLess (indentOf (model (editorOf Forward twoBlockItem)) 0)
                (listIndent (node (model (editorOf Forward twoBlockItem)) 1)))
             (model (editorOf Forward twoBlockItem)))"
proof -
  have "listIndent (node (model (editorOf Forward twoBlockItem)) 1)
          = Some (indentOf (model (editorOf Forward twoBlockItem)) 0)"
    by (simp add: small_defs)
  then show ?thesis by simp
qed

lemma twoBlockItem_absorb:
  "children (snd (deleteContent smallHost (Detached (rangeOver 0 3 (Suc 0) 0)) True
     (model (editorOf Forward twoBlockItem)))) = [0, 2]"
  "fst (mergeListItemBefore smallHost 2 0 d) = [2]"
  "children (snd (mergeListItemBefore smallHost 2 0 d)) = children d"
  by (simp_all add: small_defs Let_def)

lemma twoBlockItem_fires:
  "Detached (rangeOver 0 3 1 0) =
     (if isCollapsed (selection (snd ([], model (editorOf Forward twoBlockItem))))
      then Detached (createSelection
                       (createPositionAtEnd (snd ([], model (editorOf Forward twoBlockItem))) 0)
                       (createPositionAt 1 0))
      else DocumentSelection)"
  "deleteContent smallHost (Detached (rangeOver 0 3 1 0))
     (isCollapsed (selection (snd ([], model (editorOf Forward twoBlockItem)))))
     (snd ([], model (editorOf Forward twoBlockItem)))
   = (fst (deleteContent smallHost (Detached (rangeOver 0 3 1 0)) True
             (model (editorOf Forward twoBlockItem))),
      snd (deleteContent smallHost (Detached (rangeOver 0 3 1 0)) True
             (model (editorOf Forward twoBlockItem))))"
  "0 = parent (lastPosition
         (if isCollapsed (selection (snd ([], model (editorOf Forward twoBlockItem))))
          then fst (deleteContent smallHost (Detached (rangeOver 0 3 1 0)) True
                      (model (editorOf Forward twoBlockItem)))
          else selection (snd (deleteContent smallHost (Detached (rangeOver 0 3 1 0)) True
                                 (model (editorOf Forward twoBlockItem))))))"
  by (simp_all add: twoBlockItem_selection twoBlockItem_delete)

lemma twoBlockItem_fires_merge:
  "mergeListItemBefore smallHost 2 0
     (snd (deleteContent smallHost (Detached (rangeOver 0 3 1 0)) True
             (model (editorOf Forward twoBlockItem))))
   = (if True then
        (case nextSibling (snd (deleteContent smallHost (Detached (rangeOver 0 3 1 0)) True
                                  (model (editorOf Forward twoBlockItem)))) 0 of
           None \<Rightarrow> ([], snd (deleteContent smallHost (Detached (rangeOver 0 3 1 0)) True
                                 (model (editorOf Forward twoBlockItem))))
         | Some next \<Rightarrow>
             if next \<noteq> 1
                \<and> listItemId (node (snd (deleteContent smallHost (Detached (rangeOver 0 3 1 0))
                                            True (model (editorOf Forward twoBlockItem)))) next)
                    = listItemId (node (model (editorOf Forward twoBlockItem)) 1)
             then mergeListItemBefore smallHost next 0
                    (snd (deleteContent smallHost (Detached (rangeOver 0 3 1 0)) True
                            (model (editorOf Forward twoBlockItem))))
             else ([], snd (deleteContent smallHost (Detached (rangeOver 0 3 1 0)) True
                              (model (editorOf Forward twoBlockItem)))))
      else mergeListItemBefore smallHost 1 0 (snd ([], model (editorOf Forward twoBlockItem))))"
  by (simp add: twoBlockItem_selection twoBlockItem_delete)

lemma twoBlockItem_fires_touched:
  "[0, 2] = fst ([], model (editorOf Forward twoBlockItem)) @ (if True then [0] else [])
     @ fst (mergeListItemBefore smallHost 2 0
              (snd (deleteContent smallHost (Detached (rangeOver 0 3 1 0)) True
                      (model (editorOf Forward twoBlockItem)))))"
  "[0, 2] = sortBlocks
     (snd (mergeListItemBefore smallHost 2 0
             (snd (deleteContent smallHost (Detached (rangeOver 0 3 1 0)) True
                     (model (editorOf Forward twoBlockItem))))))
     (newSet [0, 2])"
  by (simp_all add: sortBlocks_def newSet_def twoBlockItem_absorb)

text \<open>
  C6, as the claim states it, fails. Forward merge at the end of a nested list block
  into the block of lower indent that follows: the event is fired inside the callback
  of \<^verbatim>\<open>model.change\<close>, so before the change block ends; and the block that was
  re-indented and then removed from the document by the deletion is not in the payload.
\<close>

theorem afterExecute_inside_counterexample:
  "map_sum id (newEvents (editorOf Forward inward)) (execute smallHost (editorOf Forward inward))
   = Inr [ChangeBegin, IndentBlocks [2] (Num 1) False,
          DeleteContent (Detached (rangeOver 1 3 2 0)) True,
          Fire ''afterExecute'' [1], ChangeEnd]
   \<and> \<not> firedOutsideChange False
         [ChangeBegin, IndentBlocks [2] (Num 1) False,
          DeleteContent (Detached (rangeOver 1 3 2 0)) True,
          Fire ''afterExecute'' [1], ChangeEnd]
   \<and> fst (indentBlocks smallHost [2] (Num 1) False (model (editorOf Forward inward))) = [2]"
  using execute_eq [OF inward_should inward_boundary triple triple]
  by (simp add: newEvents_def fireAfterExecute_def sortBlocks_def newSet_def
        inward_executeIndent inward_merge)

text \<open>
  C6, amended. An execution that returns fires \<^verbatim>\<open>afterExecute\<close> once, as the last step
  inside its change block, after all the calls that change the model. The touched blocks
  are those that the call of \<^verbatim>\<open>indentBlocks\<close> returned, the block that holds the end of
  the selection after the deletion, and those that the call of \<^verbatim>\<open>mergeListItemBefore\<close>
  returned. The payload holds exactly the touched blocks that are in the document after
  the execution, each once, sorted by their index in the document, and any other order
  of pushing the same blocks gives the same payload.
\<close>

theorem execute_fires:
  assumes "shouldMergeOnBlocksContentLevel h (cmd e) (model e) = Inr should"
      and "getBoundaryElements h (cmd e) (model e) (selection (model e)) should = (Some fe, Some le)"
      and "indentResult =
             (if listIndent (node (model e) le) = Some (indentOf (model e) fe) then ([], model e)
              else indentBlocks h (le # getNestedListBlocks h (model e) le)
                     (jsMinus (indentOf (model e) fe) (listIndent (node (model e) le)))
                     (jsLess (indentOf (model e) fe) (listIndent (node (model e) le))) (model e))"
      and "sel = (if isCollapsed (selection (snd indentResult))
                  then Detached (createSelection (createPositionAtEnd (snd indentResult) fe)
                                                 (createPositionAt le 0))
                  else DocumentSelection)"
      and "deleteContent h sel (isCollapsed (selection (snd indentResult))) (snd indentResult)
             = (own, d2)"
      and "lastElementAfterDelete =
             parent (lastPosition (if isCollapsed (selection (snd indentResult)) then own
                                   else selection d2))"
      and "mergeResult =
             (if should then
                (case nextSibling d2 lastElementAfterDelete of
                   None \<Rightarrow> ([], d2)
                 | Some next \<Rightarrow>
                     if next \<noteq> le \<and> listItemId (node d2 next) = listItemId (node (model e) le)
                     then mergeListItemBefore h next lastElementAfterDelete d2 else ([], d2))
              else mergeListItemBefore h le fe (snd indentResult))"
      and "touched = fst indentResult
                     @ (if should then [lastElementAfterDelete] else []) @ fst mergeResult"
      and "payload = sortBlocks (snd mergeResult) (newSet touched)"
  shows "\<exists>e' calls. execute h e = Inr e' \<and> model e' = snd mergeResult
           \<and> newEvents e e' = ChangeBegin # calls @ [Fire ''afterExecute'' payload, ChangeEnd]
           \<and> (\<forall>c \<in> set calls. isIndentCall c \<or> isMergeCall c)
           \<and> distinct payload
           \<and> set payload = set touched \<inter> set (children (model e'))
           \<and> sorted (map (\<lambda>r. indexOf r (children (model e'))) payload)
           \<and> (\<forall>pushed. set pushed = set touched \<longrightarrow>
                  sortBlocks (model e') (newSet pushed) = payload)"
proof -
  let ?d = "model e" and ?i = "listItemId (node (model e) le)"
  have "\<exists>calls1. executeIndent h ?d fe le = (fst indentResult, calls1, snd indentResult)"
    unfolding assms(3) by (simp add: executeIndent_result)
  then obtain calls1 where
    i: "executeIndent h ?d fe le = (fst indentResult, calls1, snd indentResult)" ..
  obtain calls2 where m: "executeMerge h (snd indentResult) should fe le ?i =
      ((if should then [lastElementAfterDelete] else []) @ fst mergeResult, calls2, snd mergeResult)"
  proof (cases should)
    case True
    note r = executeMerge_content_result [OF assms(4) assms(5) assms(6), where i = ?i]
    show ?thesis
    proof (cases "nextSibling d2 lastElementAfterDelete")
      case None
      with r True assms(7) that show ?thesis by simp
    next
      case (Some nx)
      with r True assms(7) that show ?thesis
        by (cases "nx \<noteq> le \<and> listItemId (node d2 nx) = ?i") auto
    qed
  next
    case False
    with assms(7) that show ?thesis by (simp add: executeMerge_structural_result)
  qed
  let ?e' = "e\<lparr>model := snd mergeResult,
                events := events e @ [ChangeBegin] @ calls1 @ calls2
                          @ fireAfterExecute (snd mergeResult)
                              (fst indentResult
                               @ (if should then [lastElementAfterDelete] else []) @ fst mergeResult)
                          @ [ChangeEnd]\<rparr>"
  have ex: "execute h e = Inr ?e'" by (rule execute_eq [OF assms(1) assms(2) i m])
  have md: "model ?e' = snd mergeResult" by simp
  have new: "newEvents e ?e' =
               ChangeBegin # (calls1 @ calls2) @ [Fire ''afterExecute'' payload, ChangeEnd]"
    by (simp add: newEvents_def fireAfterExecute_def assms(8) assms(9))
  have all: "\<forall>c \<in> set (calls1 @ calls2). isIndentCall c \<or> isMergeCall c"
    using executeMerge_calls_merge [OF m] executeIndent_calls_indent [OF i]
    by (auto simp add: list_all_iff)
  have d: "distinct payload" unfolding assms(9) by (rule sortBlocks_distinct)
  have s: "set payload = set touched \<inter> set (children (snd mergeResult))"
    unfolding assms(9) by (rule sortBlocks_set)
  have o: "sorted (map (\<lambda>r. indexOf r (children (snd mergeResult))) payload)"
    unfolding assms(9) by (rule sortBlocks_sorted)
  have p: "\<forall>pushed. set pushed = set touched \<longrightarrow>
             sortBlocks (snd mergeResult) (newSet pushed) = payload"
    unfolding assms(9) by (intro allI impI) (rule sortBlocks_order)
  from ex md new obtain e' where e': "execute h e = Inr e'"
    and g: "model e' = snd mergeResult"
    and n: "newEvents e e' =
              ChangeBegin # (calls1 @ calls2) @ [Fire ''afterExecute'' payload, ChangeEnd]"
    by blast
  from e' g n all d s o p show ?thesis
    by (intro exI [of _ e'] exI [of _ "calls1 @ calls2"]) simp
qed

theorem execute_fires_witness:
  "map_sum id (\<lambda>e'. Fire ''afterExecute'' [0, 2] \<in> set (newEvents (editorOf Forward twoBlockItem) e'))
     (execute smallHost (editorOf Forward twoBlockItem)) = Inr True
   \<and> map_sum id (\<lambda>e'. sortBlocks (model e') (newSet [2, 0, 2]))
     (execute smallHost (editorOf Forward twoBlockItem)) = Inr [0, 2]"
proof -
  let ?E = "editorOf Forward twoBlockItem"
  note execute_fires
    [OF twoBlockItem_should twoBlockItem_boundary twoBlockItem_same twoBlockItem_fires
        twoBlockItem_fires_merge twoBlockItem_fires_touched]
  then obtain e' calls where e': "execute smallHost ?E = Inr e'"
    and n: "newEvents ?E e' = ChangeBegin # calls @ [Fire ''afterExecute'' [0, 2], ChangeEnd]"
    and o: "\<forall>pushed. set pushed = set [0, 2] \<longrightarrow>
              sortBlocks (model e') (newSet pushed) = [0, 2]"
    apply -
    apply (elim exE conjE)
    apply (rule that)
      apply assumption+
    done
  from n have a: "Fire ''afterExecute'' [0, 2] \<in> set (newEvents ?E e')" by simp
  have "set [2, 0, 2] = set [0, (2::nat)]" by auto
  with o have b: "sortBlocks (model e') (newSet [2, 0, 2]) = [0, 2]" by blast
  from a b e' show ?thesis by simp
qed

end
